theory Spec2Isabelle
  imports Main
begin

section \<open>Data model of \<^verbatim>\<open>main.go\<close>\<close>

text \<open>
  A Go \<^verbatim>\<open>error\<close> value is represented by its message. Go strings are byte
  sequences, and so are HOL strings.
\<close>

datatype error = Error string

text \<open>The struct \<^verbatim>\<open>ip\<close>, with its two string fields in declaration order.\<close>

record ip =
  Address :: string
  Interface :: string

text \<open>
  The slice type \<^verbatim>\<open>ips []*ip\<close>. A Go slice is either \<^verbatim>\<open>nil\<close> or holds a
  sequence of elements, and \<^verbatim>\<open>json.Marshal\<close> tells the two apart, so the model
  does too. Every pointer the program stores in the slice is non-nil (a fresh
  \<^verbatim>\<open>&ip{...}\<close>, or the public record after its nil check) and no record is
  changed after its creation, so an element is modelled by the record it points to.
\<close>

datatype ips = NilIps | Ips "ip list"

text \<open>\<^verbatim>\<open>make(ips, 0)\<close>: the empty slice that is not nil.\<close>

definition make_ips :: ips where
  "make_ips = Ips []"

text \<open>\<^verbatim>\<open>append(s, x)\<close>; appending to the nil slice allocates.\<close>

fun append_ips :: "ips \<Rightarrow> ip \<Rightarrow> ips" where
  "append_ips NilIps x = Ips [x]"
| "append_ips (Ips xs) x = Ips (xs @ [x])"

text \<open>The elements a \<^verbatim>\<open>for _, i := range s\<close> loop visits, in order.\<close>

fun range_ips :: "ips \<Rightarrow> ip list" where
  "range_ips NilIps = []"
| "range_ips (Ips xs) = xs"

text \<open>
  The package-level variables set once by flag parsing. \<^verbatim>\<open>logLevel\<close> is a Go
  \<^verbatim>\<open>uint\<close> (32 or 64 bits, by platform); the program only compares it with
  constants, so it is a natural number here.
\<close>

record config =
  public :: bool
  all :: bool
  jsonOutput :: bool
  logLevel :: nat

section \<open>The environment\<close>

text \<open>
  What \<^verbatim>\<open>net.Interfaces\<close> reports for one interface: its name and the result of
  its \<^verbatim>\<open>Addrs()\<close> call, each address already rendered by \<^verbatim>\<open>addr.String()\<close>.
\<close>

record net_Interface =
  Name :: string
  Addrs :: "error + string list"

text \<open>
  The answers of the outside world to the calls the program can make:
  \<^verbatim>\<open>http.NewRequest\<close>, \<^verbatim>\<open>client.Do\<close> followed by \<^verbatim>\<open>io.ReadAll\<close> of the response
  body, and \<^verbatim>\<open>net.Interfaces\<close>. The program makes each call at most once.
\<close>

record world =
  http_NewRequest :: "error option"
  client_Do :: "error + (error + string)"
  net_Interfaces :: "error + net_Interface list"

text \<open>
  The effects of a run, in the order they happen: calls to the outside world, lines of
  the structured logger and lines printed by \<^verbatim>\<open>fmt.Println\<close>. Both kinds of line
  go to standard output.
\<close>

datatype slog_Level = LevelDebug | LevelInfo | LevelWarn | LevelError

datatype attr =
  BoolAttr string bool
| UintAttr string nat
| StringAttr string string
| ErrAttr string error

datatype effect =
  HttpGet
| CallInterfaces
| CallAddrs string
| LogLine slog_Level string "attr list"
| Println string

type_synonym trace = "effect list"

section \<open>The standard library, as far as the program uses it\<close>

text \<open>
  The program calls into Go's standard library: \<^verbatim>\<open>strings.TrimSpace\<close> on the response
  body, \<^verbatim>\<open>json.Marshal\<close> on the collected slice, and the structured logger. These
  functions are not part of the repository; they are written out here after the library's
  own code, on byte strings, so that what the program prints can be computed.
\<close>

subsection \<open>\<^verbatim>\<open>unicode/utf8\<close>\<close>

text \<open>
  Bytes are read as natural numbers below 256. The masks and shifts of the Go code are
  written with \<open>mod\<close> and multiplication; the shifted parts do not overlap, so
  \<open>+\<close> is the bitwise or.
\<close>

definition RuneError :: nat where
  "RuneError = 0xFFFD"

definition RuneSelf :: nat where
  "RuneSelf = 0x80"

definition locb :: nat where
  "locb = 0x80"

definition hicb :: nat where
  "hicb = 0xBF"

text \<open>
  The table \<^verbatim>\<open>first\<close> with \<^verbatim>\<open>acceptRanges\<close>, for a lead byte that is not ASCII: the
  length of the encoding and the range the second byte must lie in; \<open>None\<close> for a
  byte that starts no encoding.
\<close>

definition utf8_first :: "nat \<Rightarrow> (nat \<times> nat \<times> nat) option" where
  "utf8_first b =
     (if 0xC2 \<le> b \<and> b \<le> 0xDF then Some (2, locb, hicb)
      else if b = 0xE0 then Some (3, 0xA0, hicb)
      else if 0xE1 \<le> b \<and> b \<le> 0xEC then Some (3, locb, hicb)
      else if b = 0xED then Some (3, locb, 0x9F)
      else if 0xEE \<le> b \<and> b \<le> 0xEF then Some (3, locb, hicb)
      else if b = 0xF0 then Some (4, 0x90, hicb)
      else if 0xF1 \<le> b \<and> b \<le> 0xF3 then Some (4, locb, hicb)
      else if b = 0xF4 then Some (4, locb, 0x8F)
      else None)"

text \<open>\<^verbatim>\<open>utf8.DecodeRuneInString\<close>: the first rune of the string and its width in bytes.\<close>

definition utf8_DecodeRuneInString :: "string \<Rightarrow> nat \<times> nat" where
  "utf8_DecodeRuneInString s =
     (if length s < 1 then (RuneError, 0)
      else
        let s0 = of_char (s ! 0) in
        if s0 < RuneSelf then (s0, 1)
        else
          (case utf8_first s0 of
             None \<Rightarrow> (RuneError, 1)
           | Some (sz, lo, hi) \<Rightarrow>
               if length s < sz then (RuneError, 1)
               else
                 let s1 = of_char (s ! 1) in
                 if s1 < lo \<or> hi < s1 then (RuneError, 1)
                 else if sz \<le> 2 then (s0 mod 32 * 64 + s1 mod 64, 2)
                 else
                   let s2 = of_char (s ! 2) in
                   if s2 < locb \<or> hicb < s2 then (RuneError, 1)
                   else if sz \<le> 3 then (s0 mod 16 * 4096 + s1 mod 64 * 64 + s2 mod 64, 3)
                   else
                     let s3 = of_char (s ! 3) in
                     if s3 < locb \<or> hicb < s3 then (RuneError, 1)
                     else (s0 mod 8 * 262144 + s1 mod 64 * 4096 + s2 mod 64 * 64 + s3 mod 64, 4)))"

text \<open>\<^verbatim>\<open>utf8.RuneStart\<close>: the byte is not a continuation byte.\<close>

definition utf8_RuneStart :: "nat \<Rightarrow> bool" where
  "utf8_RuneStart b \<longleftrightarrow> \<not> (0x80 \<le> b \<and> b < 0xC0)"

text \<open>
  The backward scan of \<^verbatim>\<open>utf8.DecodeLastRuneInString\<close>:
  \<^verbatim>\<open>for start--; start >= lim; start-- { if RuneStart(s[start]) { break } }\<close>,
  entered after the first decrement.
\<close>

function back_scan :: "string \<Rightarrow> int \<Rightarrow> int \<Rightarrow> int" where
  "back_scan s start lim =
     (if start \<ge> lim then
        (if utf8_RuneStart (of_char (s ! nat start)) then start
         else back_scan s (start - 1) lim)
      else start)"
  by pat_completeness auto
termination
  by (relation "measure (\<lambda>(s, start, lim). nat (start - lim + 1))") auto

definition utf8_DecodeLastRuneInString :: "string \<Rightarrow> nat \<times> nat" where
  "utf8_DecodeLastRuneInString s =
     (let end = length s in
      if end = 0 then (RuneError, 0)
      else
        let r = of_char (s ! (end - 1)) in
        if r < RuneSelf then (r, 1)
        else
          let lim = int end - 4;
              lim = (if lim < 0 then 0 else lim);
              start = back_scan s (int end - 2) lim;
              start = (if start < 0 then 0 else start);
              (r, size) = utf8_DecodeRuneInString (drop (nat start) s)
          in if nat start + size \<noteq> end then (RuneError, 1) else (r, size))"

subsection \<open>\<^verbatim>\<open>unicode\<close> and \<^verbatim>\<open>strings\<close>\<close>

text \<open>\<^verbatim>\<open>unicode.IsSpace\<close>: the code points with the property White_Space.\<close>

definition unicode_IsSpace :: "nat \<Rightarrow> bool" where
  "unicode_IsSpace r \<longleftrightarrow>
     (0x09 \<le> r \<and> r \<le> 0x0D) \<or> r = 0x20 \<or> r = 0x85 \<or> r = 0xA0 \<or> r = 0x1680 \<or>
     (0x2000 \<le> r \<and> r \<le> 0x200A) \<or> r = 0x2028 \<or> r = 0x2029 \<or> r = 0x202F \<or>
     r = 0x205F \<or> r = 0x3000"

text \<open>The scan is unfolded where it is needed, not by the simplifier on its own.\<close>

declare back_scan.simps [simp del]

text \<open>
  \<^verbatim>\<open>strings.indexFunc\<close>: \<^verbatim>\<open>for i, r := range s { if f(r) == truth { return i } }\<close>,
  then \<^verbatim>\<open>return -1\<close>. Ranging over a string decodes it rune by rune as
  \<^verbatim>\<open>utf8.DecodeRuneInString\<close> does; the loop is shown from byte offset \<open>i\<close> on.
\<close>

function indexFunc_from :: "string \<Rightarrow> (nat \<Rightarrow> bool) \<Rightarrow> bool \<Rightarrow> nat \<Rightarrow> int" where
  "indexFunc_from s f truth i =
     (if length s \<le> i then - 1
      else
        let (r, size) = utf8_DecodeRuneInString (drop i s) in
        if f r = truth then int i
        else indexFunc_from s f truth (i + size))"
  by pat_completeness auto
termination
proof (relation "measure (\<lambda>(s, f, truth, i). length s - i)")
  show "wf (measure (\<lambda>(s, f, truth, i). length s - i))"
    by simp
next
  fix s :: string and f :: "nat \<Rightarrow> bool" and truth :: bool and i :: nat
    and x :: "nat \<times> nat" and r size :: nat
  assume len: "\<not> length s \<le> i"
    and x: "x = utf8_DecodeRuneInString (drop i s)"
    and rs: "(r, size) = x"
  have "1 \<le> snd (utf8_DecodeRuneInString (drop i s))"
    using len
    by (simp add: utf8_DecodeRuneInString_def Let_def split: option.split prod.split)
  with x rs have "1 \<le> size"
    by (metis snd_conv)
  with len show "((s, f, truth, i + size), (s, f, truth, i)) \<in> measure (\<lambda>(s, f, truth, i). length s - i)"
    by simp
qed

definition indexFunc :: "string \<Rightarrow> (nat \<Rightarrow> bool) \<Rightarrow> bool \<Rightarrow> int" where
  "indexFunc s f truth = indexFunc_from s f truth 0"

text \<open>
  \<^verbatim>\<open>strings.lastIndexFunc\<close>: the loop decodes the last rune of \<^verbatim>\<open>s[0:i]\<close> and moves
  \<open>i\<close> to its start; the prefix \<^verbatim>\<open>s[0:i]\<close> is the argument here.
\<close>

function lastIndexFunc :: "string \<Rightarrow> (nat \<Rightarrow> bool) \<Rightarrow> bool \<Rightarrow> int" where
  "lastIndexFunc s f truth =
     (if 0 < length s then
        let (r, size) = utf8_DecodeLastRuneInString s;
            i = length s - size
        in if f r = truth then int i
           else lastIndexFunc (take i s) f truth
      else - 1)"
  by pat_completeness auto
termination
proof (relation "measure (\<lambda>(s, f, truth). length s)")
  show "wf (measure (\<lambda>(s, f, truth). length s))"
    by simp
next
  fix s :: string and f :: "nat \<Rightarrow> bool" and truth :: bool
    and x :: "nat \<times> nat" and r size i :: nat
  assume len: "0 < length s"
    and x: "x = utf8_DecodeLastRuneInString s"
    and rs: "(r, size) = x"
    and i: "i = length s - size"
  have scan: "back_scan t a l \<le> a" for t a l
    by (induction t a l rule: back_scan.induct) (subst back_scan.simps, auto)
  have "1 \<le> snd (utf8_DecodeLastRuneInString s)"
  proof -
    define a where "a = back_scan s (int (length s) - 2) (if int (length s) - 4 < 0 then 0 else int (length s) - 4)"
    define k where "k = nat (if a < 0 then 0 else a)"
    obtain r' sz where d: "utf8_DecodeRuneInString (drop k s) = (r', sz)"
      by (cases "utf8_DecodeRuneInString (drop k s)")
    have "a \<le> int (length s) - 2"
      unfolding a_def by (rule scan)
    with len have "k < length s"
      by (auto simp: k_def)
    then have "1 \<le> snd (if k + sz \<noteq> length s then (RuneError, 1) else (r', sz))"
      by auto
    then show ?thesis
      unfolding utf8_DecodeLastRuneInString_def Let_def a_def [symmetric]
      unfolding k_def [symmetric] d
      using len by simp
  qed
  with x rs have "1 \<le> size"
    by (metis snd_conv)
  with len i show "((take i s, f, truth), (s, f, truth)) \<in> measure (\<lambda>(s, f, truth). length s)"
    by simp
qed

text \<open>\<^verbatim>\<open>strings.TrimLeftFunc\<close>, \<^verbatim>\<open>strings.TrimRightFunc\<close> and \<^verbatim>\<open>strings.TrimFunc\<close>.\<close>

definition TrimLeftFunc :: "string \<Rightarrow> (nat \<Rightarrow> bool) \<Rightarrow> string" where
  "TrimLeftFunc s f =
     (let i = indexFunc s f False in
      if i = - 1 then [] else drop (nat i) s)"

definition TrimRightFunc :: "string \<Rightarrow> (nat \<Rightarrow> bool) \<Rightarrow> string" where
  "TrimRightFunc s f =
     (let i = lastIndexFunc s f False;
          i = (if 0 \<le> i \<and> RuneSelf \<le> of_char (s ! nat i)
               then i + int (snd (utf8_DecodeRuneInString (drop (nat i) s)))
               else i + 1)
      in take (nat i) s)"

definition TrimFunc :: "string \<Rightarrow> (nat \<Rightarrow> bool) \<Rightarrow> string" where
  "TrimFunc s f = TrimRightFunc (TrimLeftFunc s f) f"

text \<open>
  \<^verbatim>\<open>strings.TrimSpace\<close> removes all leading and trailing white space, as defined by
  Unicode. Its loops over ASCII bytes are a fast path that hands the rest of the string
  to \<^verbatim>\<open>TrimFunc(s, unicode.IsSpace)\<close> and returns what that call returns on the whole
  string.
\<close>

definition strings_TrimSpace :: "string \<Rightarrow> string" where
  "strings_TrimSpace s = TrimFunc s unicode_IsSpace"

subsection \<open>\<^verbatim>\<open>encoding/json\<close>\<close>

definition hex :: string where
  "hex = ''0123456789abcdef''"

definition UTFMax :: nat where
  "UTFMax = 4"

text \<open>
  \<^verbatim>\<open>htmlSafeSet\<close>: the ASCII bytes that are written as they are when HTML escaping is
  on, as it is for \<^verbatim>\<open>json.Marshal\<close>.
\<close>

definition htmlSafeSet :: "nat \<Rightarrow> bool" where
  "htmlSafeSet b \<longleftrightarrow>
     0x20 \<le> b \<and> b < 0x80 \<and> b \<noteq> 0x22 \<and> b \<noteq> 0x26 \<and> b \<noteq> 0x3C \<and> b \<noteq> 0x3E \<and> b \<noteq> 0x5C"

text \<open>
  The loop of \<^verbatim>\<open>appendString\<close> (as of Go 1.22; earlier releases write the bytes
  \<open>0x08\<close> and \<open>0x0C\<close> as \<^verbatim>\<open>\u0008\<close> and \<^verbatim>\<open>\u000c\<close>). The Go loop copies the
  bytes that need no escape in runs; here each is copied when it is met.
\<close>

function appendString_from :: "string \<Rightarrow> string" where
  "appendString_from [] = []"
| "appendString_from (c # cs) =
     (let b = of_char c in
      if b < RuneSelf then
        (if htmlSafeSet b then c # appendString_from cs
         else
           (if b = 0x5C \<or> b = 0x22 then [CHR 0x5C, c]
            else if b = 0x08 then [CHR 0x5C, CHR ''b'']
            else if b = 0x0C then [CHR 0x5C, CHR ''f'']
            else if b = 0x0A then [CHR 0x5C, CHR ''n'']
            else if b = 0x0D then [CHR 0x5C, CHR ''r'']
            else if b = 0x09 then [CHR 0x5C, CHR ''t'']
            else [CHR 0x5C, CHR ''u'', CHR ''0'', CHR ''0'', hex ! (b div 16), hex ! (b mod 16)])
           @ appendString_from cs)
      else
        let (r, size) = utf8_DecodeRuneInString (take UTFMax (c # cs)) in
        if r = RuneError \<and> size = 1 then
          (CHR 0x5C # ''ufffd'') @ appendString_from (drop size (c # cs))
        else if r = 0x2028 \<or> r = 0x2029 then
          (CHR 0x5C # ''u202'') @ [hex ! (r mod 16)] @ appendString_from (drop size (c # cs))
        else take size (c # cs) @ appendString_from (drop size (c # cs)))"
  by pat_completeness auto
termination
proof (relation "measure length")
  show "wf (measure (length :: string \<Rightarrow> nat))"
    by simp
next
  fix c :: char and cs :: string and b :: nat
  show "(cs, c # cs) \<in> measure length"
    by simp
  show "(cs, c # cs) \<in> measure length"
    by simp
next
  fix c :: char and cs :: string and b :: nat and x :: "nat \<times> nat" and r size :: nat
  assume x: "x = utf8_DecodeRuneInString (take UTFMax (c # cs))" and rs: "(r, size) = x"
  have "1 \<le> snd (utf8_DecodeRuneInString (take UTFMax (c # cs)))"
    by (simp add: utf8_DecodeRuneInString_def UTFMax_def Let_def split: option.split prod.split)
  with x rs have "1 \<le> size"
    by (metis snd_conv)
  then have *: "(drop size (c # cs), c # cs) \<in> measure length"
    by simp
  show "(drop size (c # cs), c # cs) \<in> measure length"
    by (rule *)
  show "(drop size (c # cs), c # cs) \<in> measure length"
    by (rule *)
  show "(drop size (c # cs), c # cs) \<in> measure length"
    by (rule *)
qed

definition appendString :: "string \<Rightarrow> string" where
  "appendString src = [CHR 0x22] @ appendString_from src @ [CHR 0x22]"


text \<open>
  \<^verbatim>\<open>json.Marshal\<close> at the type \<^verbatim>\<open>ips\<close>: a nil slice is \<^verbatim>\<open>null\<close>, any other slice an
  array; a non-nil \<^verbatim>\<open>*ip\<close> is the object of its exported fields in declaration order.
  No value of this type makes the encoder fail, so the error is always nil.
\<close>

definition encode_ip :: "ip \<Rightarrow> string" where
  \<open>encode_ip i =
     ''{"Address":'' @ appendString (Address i) @ '',"Interface":'' @ appendString (Interface i) @ ''}''\<close>

fun encode_elems :: "ip list \<Rightarrow> string" where
  "encode_elems [] = []"
| "encode_elems [x] = encode_ip x"
| "encode_elems (x # y # ys) = encode_ip x @ '','' @ encode_elems (y # ys)"

fun json_Marshal :: "ips \<Rightarrow> string \<times> error option" where
  "json_Marshal NilIps = (''null'', None)"
| "json_Marshal (Ips xs) = (''['' @ encode_elems xs @ '']'', None)"

subsection \<open>\<^verbatim>\<open>log/slog\<close>\<close>

text \<open>The numeric value of a level; a handler emits a record whose level is at least its own.\<close>

fun level_value :: "slog_Level \<Rightarrow> int" where
  "level_value LevelDebug = - 4"
| "level_value LevelInfo = 0"
| "level_value LevelWarn = 4"
| "level_value LevelError = 8"

record logger =
  handler_level :: slog_Level
  with_attrs :: "attr list"

definition slog_log :: "logger \<Rightarrow> slog_Level \<Rightarrow> string \<Rightarrow> attr list \<Rightarrow> trace \<Rightarrow> trace" where
  "slog_log l lv msg attrs tr =
     (if level_value (handler_level l) \<le> level_value lv
      then tr @ [LogLine lv msg (with_attrs l @ attrs)]
      else tr)"

section \<open>The program\<close>

text \<open>\<^verbatim>\<open>func (i ip) String() string\<close>: \<^verbatim>\<open>fmt.Sprintf("%s\t%s", i.Address, i.Interface)\<close>.\<close>

definition ip_String :: "ip \<Rightarrow> string" where
  "ip_String i = Address i @ [CHR 0x09] @ Interface i"

text \<open>
  \<^verbatim>\<open>getPublicIp\<close>. A pointer result is an option (\<open>None\<close> is \<^verbatim>\<open>nil\<close>), an error result
  likewise. The request is only sent once it has been built.
\<close>

definition getPublicIp :: "world \<Rightarrow> trace \<Rightarrow> (ip option \<times> error option) \<times> trace" where
  "getPublicIp w tr =
     (case http_NewRequest w of
        Some err \<Rightarrow> ((None, Some err), tr)
      | None \<Rightarrow>
          let tr = tr @ [HttpGet] in
          (case client_Do w of
             Inl err \<Rightarrow> ((None, Some err), tr)
           | Inr resp \<Rightarrow>
               (case resp of
                  Inl err \<Rightarrow> ((None, Some err), tr)
                | Inr body \<Rightarrow>
                    ((Some \<lparr>Address = strings_TrimSpace body, Interface = ''public''\<rparr>, None), tr))))"

text \<open>The inner loop of \<^verbatim>\<open>getIpAddresses\<close>: \<^verbatim>\<open>for _, addr := range addrs\<close>.\<close>

fun range_addrs :: "string \<Rightarrow> string list \<Rightarrow> ips \<Rightarrow> ips" where
  "range_addrs name [] ips = ips"
| "range_addrs name (addr # addrs) ips =
     range_addrs name addrs (append_ips ips \<lparr>Address = addr, Interface = name\<rparr>)"

text \<open>
  The outer loop: \<^verbatim>\<open>for _, i := range interfaces\<close>. It returns what the function
  returns: the slice and the error, here with the trace.
\<close>

fun range_interfaces ::
  "net_Interface list \<Rightarrow> ips \<Rightarrow> trace \<Rightarrow> (ips \<times> error option) \<times> trace" where
  "range_interfaces [] ips tr = ((ips, None), tr)"
| "range_interfaces (i # interfaces) ips tr =
     (let tr = tr @ [CallAddrs (Name i)] in
      case Addrs i of
        Inl err \<Rightarrow> ((ips, Some err), tr)
      | Inr addrs \<Rightarrow>
          if addrs = [] \<or> length addrs = 0 then range_interfaces interfaces ips tr
          else range_interfaces interfaces (range_addrs (Name i) addrs ips) tr)"

text \<open>\<^verbatim>\<open>getIpAddresses\<close> from the test \<^verbatim>\<open>if !all && public\<close> on.\<close>

definition getIpAddresses_local ::
  "config \<Rightarrow> world \<Rightarrow> ips \<Rightarrow> trace \<Rightarrow> (ips \<times> error option) \<times> trace" where
  "getIpAddresses_local cfg w ips tr =
     (if \<not> all cfg \<and> public cfg then ((ips, None), tr)
      else
        let tr = tr @ [CallInterfaces] in
        (case net_Interfaces w of
           Inl err \<Rightarrow> ((ips, Some err), tr)
         | Inr interfaces \<Rightarrow> range_interfaces interfaces ips tr))"

text \<open>\<^verbatim>\<open>getIpAddresses\<close>: every \<^verbatim>\<open>return ips, err\<close> returns the slice built so far.\<close>

definition getIpAddresses :: "config \<Rightarrow> world \<Rightarrow> trace \<Rightarrow> (ips \<times> error option) \<times> trace" where
  "getIpAddresses cfg w tr =
     (let ips = make_ips in
      if public cfg \<or> all cfg then
        (case getPublicIp w tr of
           ((publicIp, Some err), tr) \<Rightarrow> ((ips, Some err), tr)
         | ((publicIp, None), tr) \<Rightarrow>
             (case publicIp of
                Some p \<Rightarrow> getIpAddresses_local cfg w (append_ips ips p) tr
              | None \<Rightarrow> getIpAddresses_local cfg w ips tr))
      else getIpAddresses_local cfg w ips tr)"

text \<open>The text branch of \<^verbatim>\<open>run\<close>: \<^verbatim>\<open>for _, i := range ips { fmt.Println(i) }\<close>.\<close>

fun println_each :: "ip list \<Rightarrow> trace \<Rightarrow> trace" where
  "println_each [] tr = tr"
| "println_each (i # rest) tr = println_each rest (tr @ [Println (ip_String i)])"

text \<open>
  \<^verbatim>\<open>run\<close>, with the marshaller as a parameter, so that the branch for its error can be
  exercised; \<open>run\<close> is the program's, with \<^verbatim>\<open>json.Marshal\<close>.
\<close>

definition run_with ::
  "(ips \<Rightarrow> string \<times> error option) \<Rightarrow> config \<Rightarrow> world \<Rightarrow> logger \<Rightarrow> trace \<Rightarrow> error option \<times> trace" where
  "run_with marshal cfg w lg tr =
     (case getIpAddresses cfg w tr of
        ((ips, Some err), tr) \<Rightarrow>
          (Some err, slog_log lg LevelError ''could not get ip addresses'' [ErrAttr ''err'' err] tr)
      | ((ips, None), tr) \<Rightarrow>
          if jsonOutput cfg then
            (case marshal ips of
               (data, Some err) \<Rightarrow> (Some err, tr)
             | (data, None) \<Rightarrow> (None, tr @ [Println data]))
          else (None, println_each (range_ips ips) tr))"

definition run :: "config \<Rightarrow> world \<Rightarrow> logger \<Rightarrow> trace \<Rightarrow> error option \<times> trace" where
  "run = run_with json_Marshal"

text \<open>The \<^verbatim>\<open>switch logLevel\<close> of \<^verbatim>\<open>main\<close>.\<close>

definition handlerOpts :: "nat \<Rightarrow> slog_Level" where
  "handlerOpts l =
     (if l = 0 then LevelWarn
      else if l = 1 then LevelInfo
      else if l = 2 then LevelDebug
      else LevelInfo)"

text \<open>
  \<^verbatim>\<open>main\<close> after flag parsing: the exit code of the process and its trace. Returning
  from \<^verbatim>\<open>main\<close> is exit code 0.
\<close>

definition main_with ::
  "(ips \<Rightarrow> string \<times> error option) \<Rightarrow> config \<Rightarrow> world \<Rightarrow> nat \<times> trace" where
  "main_with marshal cfg w =
     (let lg = \<lparr>handler_level = handlerOpts (logLevel cfg),
                with_attrs = [StringAttr ''project'' ''ips'']\<rparr>;
          tr = slog_log lg LevelDebug ''starting''
                 [BoolAttr ''public'' (public cfg), BoolAttr ''all'' (all cfg),
                  BoolAttr ''json'' (jsonOutput cfg), UintAttr ''logLevel'' (logLevel cfg)] []
      in case run_with marshal cfg w lg tr of
           (Some err, tr) \<Rightarrow> (1, tr)
         | (None, tr) \<Rightarrow> (0, tr))"

definition main :: "config \<Rightarrow> world \<Rightarrow> nat \<times> trace" where
  "main = main_with json_Marshal"

section \<open>Reading a trace\<close>

text \<open>The data output: the lines written by \<^verbatim>\<open>fmt.Println\<close>, in order.\<close>

fun data_lines :: "trace \<Rightarrow> string list" where
  "data_lines [] = []"
| "data_lines (Println s # tr) = s # data_lines tr"
| "data_lines (e # tr) = data_lines tr"

section \<open>The specification's vocabulary\<close>

text \<open>
  The specification speaks of an enumeration that succeeds, of the addresses an interface
  reports and of the local records in OS order. These definitions follow its words; the
  theorems below compare the program with them.
\<close>

definition spec_addrs_ok :: "net_Interface \<Rightarrow> bool" where
  "spec_addrs_ok i = (case Addrs i of Inl err \<Rightarrow> False | Inr addrs \<Rightarrow> True)"

definition spec_addrs_of :: "net_Interface \<Rightarrow> string list" where
  "spec_addrs_of i = (case Addrs i of Inl err \<Rightarrow> [] | Inr addrs \<Rightarrow> addrs)"

definition spec_local_records :: "net_Interface list \<Rightarrow> ip list" where
  "spec_local_records ifs =
     concat (map (\<lambda>i. map (\<lambda>a. \<lparr>Address = a, Interface = Name i\<rparr>) (spec_addrs_of i)) ifs)"

text \<open>
  The error of the first collection step that fails, in the order the specification
  gives the steps: the lookup when \<open>public\<close> or \<open>all\<close> is set, then the enumeration
  of the interfaces, then the address list of each interface in turn.
\<close>

definition spec_lookup_error :: "world \<Rightarrow> error option" where
  "spec_lookup_error w =
     (case http_NewRequest w of
        Some e \<Rightarrow> Some e
      | None \<Rightarrow>
          (case client_Do w of
             Inl e \<Rightarrow> Some e
           | Inr resp \<Rightarrow> (case resp of Inl e \<Rightarrow> Some e | Inr body \<Rightarrow> None)))"

fun spec_addrs_error :: "net_Interface list \<Rightarrow> error option" where
  "spec_addrs_error [] = None"
| "spec_addrs_error (i # ifs) =
     (case Addrs i of Inl e \<Rightarrow> Some e | Inr addrs \<Rightarrow> spec_addrs_error ifs)"

definition spec_enumeration_error :: "world \<Rightarrow> error option" where
  "spec_enumeration_error w =
     (case net_Interfaces w of Inl e \<Rightarrow> Some e | Inr ifs \<Rightarrow> spec_addrs_error ifs)"

definition spec_collection_error :: "config \<Rightarrow> world \<Rightarrow> error option" where
  "spec_collection_error cfg w =
     (if public cfg \<or> all cfg then
        (case spec_lookup_error w of
           Some e \<Rightarrow> Some e
         | None \<Rightarrow> if all cfg then spec_enumeration_error w else None)
      else spec_enumeration_error w)"

text \<open>
  The records collected up to the first address list that cannot be read, and the whole
  content of the slice that \<^verbatim>\<open>getIpAddresses\<close> returns, with or without an error.
\<close>

fun spec_records_until_error :: "net_Interface list \<Rightarrow> ip list" where
  "spec_records_until_error [] = []"
| "spec_records_until_error (i # ifs) =
     (case Addrs i of
        Inl e \<Rightarrow> []
      | Inr addrs \<Rightarrow>
          map (\<lambda>a. \<lparr>Address = a, Interface = Name i\<rparr>) addrs @ spec_records_until_error ifs)"

definition spec_collected :: "config \<Rightarrow> world \<Rightarrow> ip list" where
  "spec_collected cfg w =
     (if (public cfg \<or> all cfg) \<and> spec_lookup_error w \<noteq> None then []
      else
        (if public cfg \<or> all cfg then
           (case client_Do w of
              Inr (Inr body) \<Rightarrow> [\<lparr>Address = strings_TrimSpace body, Interface = ''public''\<rparr>]
            | _ \<Rightarrow> [])
         else []) @
        (if public cfg \<and> \<not> all cfg then []
         else
           (case net_Interfaces w of
              Inl e \<Rightarrow> []
            | Inr ifs \<Rightarrow> spec_records_until_error ifs)))"

section \<open>The loops and the trace\<close>

lemma range_addrs_Ips:
  "range_addrs n as (Ips xs) = Ips (xs @ map (\<lambda>a. \<lparr>Address = a, Interface = n\<rparr>) as)"
  by (induction as arbitrary: xs) simp_all

lemma range_interfaces_ok:
  "list_all spec_addrs_ok ifs \<Longrightarrow>
   range_interfaces ifs (Ips xs) tr =
     ((Ips (xs @ spec_local_records ifs), None), tr @ map (\<lambda>i. CallAddrs (Name i)) ifs)"
proof (induction ifs arbitrary: xs tr)
  case Nil
  then show ?case by (simp add: spec_local_records_def)
next
  case (Cons i ifs)
  from Cons.prems have ok: "spec_addrs_ok i" and rest: "list_all spec_addrs_ok ifs"
    by simp_all
  from ok obtain as where as: "Addrs i = Inr as"
    by (cases "Addrs i") (simp_all add: spec_addrs_ok_def)
  have rec: "spec_local_records (i # ifs) =
      map (\<lambda>a. \<lparr>Address = a, Interface = Name i\<rparr>) as @ spec_local_records ifs"
    by (simp add: spec_local_records_def spec_addrs_of_def as)
  show ?case
    using Cons.IH [OF rest] as
    by (simp add: rec range_addrs_Ips Let_def)
qed

lemma range_interfaces_fst_trace:
  "fst (range_interfaces ifs ips tr) = fst (range_interfaces ifs ips tr')"
proof (induction ifs arbitrary: ips tr tr')
  case Nil
  show ?case by simp
next
  case (Cons i ifs)
  show ?case
    using Cons.IH
    by (simp add: Let_def split: sum.split) 
qed


lemma data_lines_append: "data_lines (a @ b) = data_lines a @ data_lines b"
  by (induction a rule: data_lines.induct) simp_all

lemma data_lines_range_interfaces:
  "data_lines (snd (range_interfaces ifs ips tr)) = data_lines tr"
proof (induction ifs arbitrary: ips tr)
  case Nil
  show ?case by simp
next
  case (Cons i ifs)
  show ?case
    by (simp add: Let_def Cons.IH data_lines_append split: sum.split)
qed

lemma range_interfaces_nonnil:
  "\<exists>ys. fst (fst (range_interfaces ifs (Ips xs) tr)) = Ips ys"
proof (induction ifs arbitrary: xs tr)
  case Nil
  show ?case by simp
next
  case (Cons i ifs)
  show ?case
    by (simp add: Let_def Cons.IH range_addrs_Ips split: sum.split)
qed

lemma getPublicIp_fst_trace: "fst (getPublicIp w tr) = fst (getPublicIp w tr')"
  by (simp add: getPublicIp_def Let_def split: option.split sum.split)

lemma data_lines_getPublicIp: "data_lines (snd (getPublicIp w tr)) = data_lines tr"
  by (simp add: getPublicIp_def Let_def data_lines_append split: option.split sum.split)

lemma getIpAddresses_local_fst_trace:
  "fst (getIpAddresses_local cfg w ips tr) = fst (getIpAddresses_local cfg w ips tr')"
  by (simp add: getIpAddresses_local_def Let_def range_interfaces_fst_trace [of _ _ "tr @ [CallInterfaces]" "tr' @ [CallInterfaces]"]
      split: sum.split)

lemma data_lines_getIpAddresses_local:
  "data_lines (snd (getIpAddresses_local cfg w ips tr)) = data_lines tr"
  by (simp add: getIpAddresses_local_def Let_def data_lines_range_interfaces data_lines_append
      split: sum.split)

lemma getIpAddresses_local_nonnil:
  "\<exists>ys. fst (fst (getIpAddresses_local cfg w (Ips xs) tr)) = Ips ys"
  by (simp add: getIpAddresses_local_def Let_def range_interfaces_nonnil split: sum.split)

lemma getIpAddresses_fst_trace:
  "fst (getIpAddresses cfg w tr) = fst (getIpAddresses cfg w tr')"
proof -
  obtain p e t where a: "getPublicIp w tr = ((p, e), t)"
    by (metis prod.exhaust)
  obtain p' e' t' where b: "getPublicIp w tr' = ((p', e'), t')"
    by (metis prod.exhaust)
  from a b getPublicIp_fst_trace [of w tr tr'] have pe: "p' = p" "e' = e"
    by simp_all
  show ?thesis
    using getIpAddresses_local_fst_trace [of cfg w _ t t']
          getIpAddresses_local_fst_trace [of cfg w _ tr tr']
    by (simp add: getIpAddresses_def Let_def a b pe split: option.split)
qed

lemma data_lines_getIpAddresses:
  "data_lines (snd (getIpAddresses cfg w tr)) = data_lines tr"
proof -
  obtain p e t where a: "getPublicIp w tr = ((p, e), t)"
    by (metis prod.exhaust)
  from a data_lines_getPublicIp [of w tr] have t: "data_lines t = data_lines tr"
    by simp
  show ?thesis
    by (simp add: getIpAddresses_def Let_def a t data_lines_getIpAddresses_local split: option.split)
qed

lemma getIpAddresses_nonnil:
  "\<exists>ys. fst (fst (getIpAddresses cfg w tr)) = Ips ys"
proof -
  obtain p e t where a: "getPublicIp w tr = ((p, e), t)"
    by (metis prod.exhaust)
  show ?thesis
    by (simp add: getIpAddresses_def Let_def a make_ips_def getIpAddresses_local_nonnil
        split: option.split)
qed

lemma println_each_eq: "println_each xs tr = tr @ map (\<lambda>i. Println (ip_String i)) xs"
  by (induction xs arbitrary: tr) simp_all

lemma data_lines_Println: "data_lines (map (\<lambda>i. Println (f i)) xs) = map f xs"
  by (induction xs) simp_all

lemma data_lines_slog_log: "data_lines (slog_log lg lv msg attrs tr) = data_lines tr"
  by (simp add: slog_log_def data_lines_append)


lemma run_with_result:
  assumes "fst (getIpAddresses cfg w []) = (ips, eo)"
  shows "fst (run_with m cfg w lg tr) =
           (case eo of Some e \<Rightarrow> Some e | None \<Rightarrow> if jsonOutput cfg then snd (m ips) else None)"
    and "data_lines (snd (run_with m cfg w lg tr)) =
           data_lines tr @
           (case eo of
              Some e \<Rightarrow> []
            | None \<Rightarrow>
                if jsonOutput cfg then (case snd (m ips) of Some e \<Rightarrow> [] | None \<Rightarrow> [fst (m ips)])
                else map ip_String (range_ips ips))"
proof -
  obtain t where g: "getIpAddresses cfg w tr = ((ips, eo), t)"
    using assms getIpAddresses_fst_trace [of cfg w tr "[]"]
    by (metis prod.collapse)
  from g data_lines_getIpAddresses [of cfg w tr] have t: "data_lines t = data_lines tr"
    by simp
  obtain d me where m: "m ips = (d, me)"
    by (metis prod.exhaust)
  show "fst (run_with m cfg w lg tr) =
           (case eo of Some e \<Rightarrow> Some e | None \<Rightarrow> if jsonOutput cfg then snd (m ips) else None)"
    by (simp add: run_with_def g m split: option.split)
  show "data_lines (snd (run_with m cfg w lg tr)) =
           data_lines tr @
           (case eo of
              Some e \<Rightarrow> []
            | None \<Rightarrow>
                if jsonOutput cfg then (case snd (m ips) of Some e \<Rightarrow> [] | None \<Rightarrow> [fst (m ips)])
                else map ip_String (range_ips ips))"
    by (simp add: run_with_def g m t data_lines_slog_log data_lines_append println_each_eq
        data_lines_Println split: option.split)
qed

lemma main_with_result:
  assumes "fst (getIpAddresses cfg w []) = (ips, eo)"
  shows "fst (main_with m cfg w) =
           (case eo of
              Some e \<Rightarrow> 1
            | None \<Rightarrow> if jsonOutput cfg then (case snd (m ips) of Some e \<Rightarrow> 1 | None \<Rightarrow> 0) else 0)"
    and "data_lines (snd (main_with m cfg w)) =
           (case eo of
              Some e \<Rightarrow> []
            | None \<Rightarrow>
                if jsonOutput cfg then (case snd (m ips) of Some e \<Rightarrow> [] | None \<Rightarrow> [fst (m ips)])
                else map ip_String (range_ips ips))"
proof -
  define lg where "lg = \<lparr>handler_level = handlerOpts (logLevel cfg),
                with_attrs = [StringAttr ''project'' ''ips'']\<rparr>"
  define tr where "tr = slog_log lg LevelDebug ''starting''
                 [BoolAttr ''public'' (public cfg), BoolAttr ''all'' (all cfg),
                  BoolAttr ''json'' (jsonOutput cfg), UintAttr ''logLevel'' (logLevel cfg)] []"
  have tr: "data_lines tr = []"
    by (simp add: tr_def data_lines_slog_log)
  obtain e t where r: "run_with m cfg w lg tr = (e, t)"
    by (metis prod.exhaust)
  have mw: "main_with m cfg w = (case e of Some err \<Rightarrow> (1, t) | None \<Rightarrow> (0, t))"
    by (simp add: main_with_def Let_def lg_def [symmetric] tr_def [symmetric] r)
  from run_with_result [OF assms, of m lg tr] r tr
  have e: "e = (case eo of Some e \<Rightarrow> Some e | None \<Rightarrow> if jsonOutput cfg then snd (m ips) else None)"
    and t: "data_lines t =
           (case eo of
              Some e \<Rightarrow> []
            | None \<Rightarrow>
                if jsonOutput cfg then (case snd (m ips) of Some e \<Rightarrow> [] | None \<Rightarrow> [fst (m ips)])
                else map ip_String (range_ips ips))"
    by simp_all
  show "fst (main_with m cfg w) =
           (case eo of
              Some e \<Rightarrow> 1
            | None \<Rightarrow> if jsonOutput cfg then (case snd (m ips) of Some e \<Rightarrow> 1 | None \<Rightarrow> 0) else 0)"
    by (simp add: mw e split: option.split)
  have "snd (main_with m cfg w) = t"
    by (simp add: mw split: option.split)
  with t show "data_lines (snd (main_with m cfg w)) =
           (case eo of
              Some e \<Rightarrow> []
            | None \<Rightarrow>
                if jsonOutput cfg then (case snd (m ips) of Some e \<Rightarrow> [] | None \<Rightarrow> [fst (m ips)])
                else map ip_String (range_ips ips))"
    by simp
qed

lemma range_interfaces_error:
  "snd (fst (range_interfaces ifs ips tr)) = spec_addrs_error ifs"
proof (induction ifs arbitrary: ips tr)
  case Nil
  show ?case by simp
next
  case (Cons i ifs)
  show ?case
    by (simp add: Let_def Cons.IH split: sum.split)
qed

lemma getIpAddresses_local_error:
  "snd (fst (getIpAddresses_local cfg w ips tr)) =
     (if \<not> all cfg \<and> public cfg then None else spec_enumeration_error w)"
  by (simp add: getIpAddresses_local_def Let_def range_interfaces_error
      spec_enumeration_error_def split: sum.split)

lemma getPublicIp_error: "snd (fst (getPublicIp w tr)) = spec_lookup_error w"
  by (simp add: getPublicIp_def spec_lookup_error_def Let_def split: option.split sum.split)

lemma getPublicIp_success:
  "snd (fst (getPublicIp w tr)) = None \<Longrightarrow>
   \<exists>body. client_Do w = Inr (Inr body) \<and> http_NewRequest w = None \<and>
     getPublicIp w tr =
       ((Some \<lparr>Address = strings_TrimSpace body, Interface = ''public''\<rparr>, None), tr @ [HttpGet])"
  by (simp add: getPublicIp_def Let_def split: option.splits sum.splits)

lemma getIpAddresses_error:
  "snd (fst (getIpAddresses cfg w tr)) = spec_collection_error cfg w"
proof -
  obtain p e t where a: "getPublicIp w tr = ((p, e), t)"
    by (metis prod.exhaust)
  from a getPublicIp_error [of w tr] have e: "spec_lookup_error w = e"
    by simp
  show ?thesis
    by (auto simp add: getIpAddresses_def Let_def a e spec_collection_error_def
        getIpAddresses_local_error split: option.split)
qed

lemma range_interfaces_acc:
  "range_ips (fst (fst (range_interfaces ifs (Ips xs) tr))) =
     xs @ range_ips (fst (fst (range_interfaces ifs (Ips []) tr)))"
proof (induction ifs arbitrary: xs tr)
  case Nil
  show ?case by simp
next
  case (Cons i ifs)
  show ?case
  proof (cases "Addrs i")
    case (Inl e)
    then show ?thesis by (simp add: Let_def)
  next
    case (Inr as)
    show ?thesis
      using Cons.IH [of "xs @ map (\<lambda>a. \<lparr>Address = a, Interface = Name i\<rparr>) as" "tr @ [CallAddrs (Name i)]"]
        Cons.IH [of "map (\<lambda>a. \<lparr>Address = a, Interface = Name i\<rparr>) as" "tr @ [CallAddrs (Name i)]"]
        Cons.IH [of xs "tr @ [CallAddrs (Name i)]"]
      by (simp add: Let_def Inr range_addrs_Ips)
  qed
qed

lemma HttpGet_range_interfaces:
  "HttpGet \<in> set (snd (range_interfaces ifs ips tr)) \<longleftrightarrow> HttpGet \<in> set tr"
proof (induction ifs arbitrary: ips tr)
  case Nil
  show ?case by simp
next
  case (Cons i ifs)
  show ?case
    by (simp add: Let_def Cons.IH split: sum.split)
qed

lemma spec_local_records_names:
  "r \<in> set (spec_local_records ifs) \<Longrightarrow> Interface r \<in> Name ` set ifs"
  by (auto simp: spec_local_records_def)

lemma range_interfaces_until_error:
  "fst (fst (range_interfaces ifs (Ips xs) tr)) = Ips (xs @ spec_records_until_error ifs)"
proof (induction ifs arbitrary: xs tr)
  case Nil
  show ?case by simp
next
  case (Cons i ifs)
  show ?case
    by (simp add: Let_def Cons.IH range_addrs_Ips split: sum.split)
qed

lemma getIpAddresses_local_records:
  "fst (fst (getIpAddresses_local cfg w (Ips xs) tr)) =
     Ips (xs @ (if public cfg \<and> \<not> all cfg then []
                else (case net_Interfaces w of
                        Inl e \<Rightarrow> []
                      | Inr ifs \<Rightarrow> spec_records_until_error ifs)))"
  by (simp add: getIpAddresses_local_def Let_def range_interfaces_until_error split: sum.split)

lemma getIpAddresses_records:
  "fst (fst (getIpAddresses cfg w tr)) = Ips (spec_collected cfg w)"
proof (cases "public cfg \<or> all cfg")
  case False
  then show ?thesis
    by (simp add: getIpAddresses_def make_ips_def getIpAddresses_local_records spec_collected_def)
next
  case True
  show ?thesis
  proof (cases "spec_lookup_error w")
    case (Some e)
    with getPublicIp_error [of w tr] obtain p t where "getPublicIp w tr = ((p, Some e), t)"
      by (metis prod.collapse)
    with True Some show ?thesis
      by (simp add: getIpAddresses_def make_ips_def spec_collected_def)
  next
    case None
    with getPublicIp_error [of w tr] have "snd (fst (getPublicIp w tr)) = None"
      by simp
    from getPublicIp_success [OF this] obtain body where
      "client_Do w = Inr (Inr body)" and
      "getPublicIp w tr =
         ((Some \<lparr>Address = strings_TrimSpace body, Interface = ''public''\<rparr>, None), tr @ [HttpGet])"
      by blast
    with True None show ?thesis
      by (simp add: getIpAddresses_def make_ips_def spec_collected_def getIpAddresses_local_records)
  qed
qed

lemma handlerOpts_enables_Error: "level_value (handlerOpts l) \<le> level_value LevelError"
  by (simp add: handlerOpts_def)

lemma main_with_error_log:
  assumes "snd (fst (getIpAddresses cfg w [])) = Some e"
  shows "\<exists>t. snd (main_with m cfg w) =
           t @ [LogLine LevelError ''could not get ip addresses''
                  [StringAttr ''project'' ''ips'', ErrAttr ''err'' e]]"
proof -
  define lg where "lg = \<lparr>handler_level = handlerOpts (logLevel cfg),
                with_attrs = [StringAttr ''project'' ''ips'']\<rparr>"
  define tr where "tr = slog_log lg LevelDebug ''starting''
                 [BoolAttr ''public'' (public cfg), BoolAttr ''all'' (all cfg),
                  BoolAttr ''json'' (jsonOutput cfg), UintAttr ''logLevel'' (logLevel cfg)] []"
  obtain ips t where g: "getIpAddresses cfg w tr = ((ips, Some e), t)"
    using assms getIpAddresses_fst_trace [of cfg w tr "[]"]
    by (metis prod.collapse)
  have "run_with m cfg w lg tr =
      (Some e, t @ [LogLine LevelError ''could not get ip addresses''
                  [StringAttr ''project'' ''ips'', ErrAttr ''err'' e]])"
    using handlerOpts_enables_Error [of "logLevel cfg"]
    by (simp add: run_with_def g slog_log_def lg_def)
  then have "snd (main_with m cfg w) =
      t @ [LogLine LevelError ''could not get ip addresses''
                  [StringAttr ''project'' ''ips'', ErrAttr ''err'' e]]"
    by (simp add: main_with_def Let_def lg_def [symmetric] tr_def [symmetric])
  then show ?thesis
    by blast
qed

section \<open>The JSON encoder never writes a line feed\<close>











section \<open>The claims\<close>

text \<open>
  C1. With \<open>all\<close> set, whatever \<open>public\<close> is, and the lookup and the enumeration
  succeeding, the collected sequence is the public record, then the records of each
  interface in the order \<^verbatim>\<open>net.Interfaces\<close> reports them, the addresses of one
  interface in the order its \<^verbatim>\<open>Addrs\<close> reports them, one record per address; the calls
  made are the request, the enumeration and one \<^verbatim>\<open>Addrs\<close> per interface.
\<close>

theorem getIpAddresses_all_order:
  assumes "all cfg"
    and "http_NewRequest w = None"
    and "client_Do w = Inr (Inr body)"
    and "net_Interfaces w = Inr ifs"
    and "list_all spec_addrs_ok ifs"
  shows "getIpAddresses cfg w tr =
           ((Ips (\<lparr>Address = strings_TrimSpace body, Interface = ''public''\<rparr> #
                  spec_local_records ifs), None),
            tr @ HttpGet # CallInterfaces # map (\<lambda>i. CallAddrs (Name i)) ifs)"
proof -
  have pub: "getPublicIp w tr =
      ((Some \<lparr>Address = strings_TrimSpace body, Interface = ''public''\<rparr>, None), tr @ [HttpGet])"
    using assms(2,3) by (simp add: getPublicIp_def)
  have loc: "getIpAddresses_local cfg w (Ips xs) t =
      ((Ips (xs @ spec_local_records ifs), None),
       t @ CallInterfaces # map (\<lambda>i. CallAddrs (Name i)) ifs)" for xs t
    using assms(1,4) range_interfaces_ok [OF assms(5)]
    by (simp add: getIpAddresses_local_def)
  show ?thesis
    using assms(1) by (simp add: getIpAddresses_def make_ips_def pub loc)
qed

text \<open>
  An instance: three interfaces, the second without addresses, and a response body that
  ends in a line feed.
\<close>

theorem getIpAddresses_all_order_witness:
  "all \<lparr>public = False, all = True, jsonOutput = False, logLevel = 0\<rparr> \<and>
   list_all spec_addrs_ok
     [\<lparr>Name = ''lo'', Addrs = Inr [''127.0.0.1/8'', ''::1/128'']\<rparr>,
      \<lparr>Name = ''tun0'', Addrs = Inr []\<rparr>,
      \<lparr>Name = ''eth0'', Addrs = Inr [''192.168.1.5/24'']\<rparr>] \<and>
   getIpAddresses \<lparr>public = False, all = True, jsonOutput = False, logLevel = 0\<rparr>
     \<lparr>http_NewRequest = None,
      client_Do = Inr (Inr (''203.0.113.7'' @ [CHR 0x0A])),
      net_Interfaces = Inr
        [\<lparr>Name = ''lo'', Addrs = Inr [''127.0.0.1/8'', ''::1/128'']\<rparr>,
         \<lparr>Name = ''tun0'', Addrs = Inr []\<rparr>,
         \<lparr>Name = ''eth0'', Addrs = Inr [''192.168.1.5/24'']\<rparr>]\<rparr> [] =
     ((Ips [\<lparr>Address = ''203.0.113.7'', Interface = ''public''\<rparr>,
            \<lparr>Address = ''127.0.0.1/8'', Interface = ''lo''\<rparr>,
            \<lparr>Address = ''::1/128'', Interface = ''lo''\<rparr>,
            \<lparr>Address = ''192.168.1.5/24'', Interface = ''eth0''\<rparr>], None),
      [HttpGet, CallInterfaces, CallAddrs ''lo'', CallAddrs ''tun0'', CallAddrs ''eth0''])"
proof -
  let ?ifs = "[\<lparr>Name = ''lo'', Addrs = Inr [''127.0.0.1/8'', ''::1/128'']\<rparr>,
      \<lparr>Name = ''tun0'', Addrs = Inr []\<rparr>,
      \<lparr>Name = ''eth0'', Addrs = Inr [''192.168.1.5/24'']\<rparr>]"
  let ?w = "\<lparr>http_NewRequest = None,
      client_Do = Inr (Inr (''203.0.113.7'' @ [CHR 0x0A])),
      net_Interfaces = Inr ?ifs\<rparr>"
  let ?cfg = "\<lparr>public = False, all = True, jsonOutput = False, logLevel = 0\<rparr>"
  have ok: "list_all spec_addrs_ok ?ifs"
    by (simp add: spec_addrs_ok_def)
  have trim: "strings_TrimSpace (''203.0.113.7'' @ [CHR 0x0A]) = ''203.0.113.7''"
    by code_simp
  have "getIpAddresses ?cfg ?w [] =
           ((Ips (\<lparr>Address = strings_TrimSpace (''203.0.113.7'' @ [CHR 0x0A]), Interface = ''public''\<rparr> #
                  spec_local_records ?ifs), None),
            [] @ HttpGet # CallInterfaces # map (\<lambda>i. CallAddrs (Name i)) ?ifs)"
    by (rule getIpAddresses_all_order [OF _ _ _ _ ok]) simp_all
  then show ?thesis
    using ok trim by (simp add: spec_local_records_def spec_addrs_of_def)
qed

text \<open>
  C2. With \<open>public\<close> set and \<open>all\<close> not set, and the lookup succeeding, the collector
  returns right after the lookup: its only call is the request, and the result is the one
  record labelled \<^verbatim>\<open>public\<close> whose address is the response body with the surrounding
  white space trimmed.
\<close>

theorem getIpAddresses_public_only:
  assumes "public cfg"
    and "\<not> all cfg"
    and "http_NewRequest w = None"
    and "client_Do w = Inr (Inr body)"
  shows "getIpAddresses cfg w tr =
           ((Ips [\<lparr>Address = strings_TrimSpace body, Interface = ''public''\<rparr>], None),
            tr @ [HttpGet])"
  using assms
  by (simp add: getIpAddresses_def getPublicIp_def getIpAddresses_local_def make_ips_def)

text \<open>An instance: the interface of the world is never asked for its addresses.\<close>

theorem getIpAddresses_public_only_witness:
  "public \<lparr>public = True, all = False, jsonOutput = False, logLevel = 0\<rparr> \<and>
   \<not> all \<lparr>public = True, all = False, jsonOutput = False, logLevel = 0\<rparr> \<and>
   getIpAddresses \<lparr>public = True, all = False, jsonOutput = False, logLevel = 0\<rparr>
     \<lparr>http_NewRequest = None,
      client_Do = Inr (Inr ([CHR 0x20, CHR 0x09] @ ''198.51.100.23'' @ [CHR 0x0D, CHR 0x0A])),
      net_Interfaces = Inr [\<lparr>Name = ''eth0'', Addrs = Inr [''192.168.1.5/24'']\<rparr>]\<rparr> [] =
     ((Ips [\<lparr>Address = ''198.51.100.23'', Interface = ''public''\<rparr>], None), [HttpGet])"
proof -
  have trim: "strings_TrimSpace ([CHR 0x20, CHR 0x09] @ ''198.51.100.23'' @ [CHR 0x0D, CHR 0x0A]) =
      ''198.51.100.23''"
    by code_simp
  show ?thesis
    using trim getIpAddresses_public_only
      [of "\<lparr>public = True, all = False, jsonOutput = False, logLevel = 0\<rparr>"
          "\<lparr>http_NewRequest = None,
            client_Do = Inr (Inr ([CHR 0x20, CHR 0x09] @ ''198.51.100.23'' @ [CHR 0x0D, CHR 0x0A])),
            net_Interfaces = Inr [\<lparr>Name = ''eth0'', Addrs = Inr [''192.168.1.5/24'']\<rparr>]\<rparr>"
          "[CHR 0x20, CHR 0x09] @ ''198.51.100.23'' @ [CHR 0x0D, CHR 0x0A]" "[]"]
    by simp
qed

text \<open>
  C3, as amended. With neither \<open>public\<close> nor \<open>all\<close> set, the collector sends no
  request, whatever the world answers. When the enumeration succeeds, the collected
  sequence is exactly the local records in OS order, the process exits with code 0 and
  prints them (as text lines or as one JSON line). Each record carries the name of the
  interface it came from; so no record is labelled \<^verbatim>\<open>public\<close> provided no interface
  has that name.
\<close>

theorem no_flags_local_enumeration:
  assumes "\<not> public cfg"
    and "\<not> all cfg"
  shows "HttpGet \<notin> set (snd (getIpAddresses cfg w [])) \<and>
         (\<forall>ifs. net_Interfaces w = Inr ifs \<and> list_all spec_addrs_ok ifs \<longrightarrow>
            getIpAddresses cfg w tr =
              ((Ips (spec_local_records ifs), None),
               tr @ CallInterfaces # map (\<lambda>i. CallAddrs (Name i)) ifs) \<and>
            fst (main cfg w) = 0 \<and>
            data_lines (snd (main cfg w)) =
              (if jsonOutput cfg then [fst (json_Marshal (Ips (spec_local_records ifs)))]
               else map ip_String (spec_local_records ifs)) \<and>
            (\<forall>r \<in> set (spec_local_records ifs). Interface r \<in> Name ` set ifs) \<and>
            (''public'' \<notin> Name ` set ifs \<longrightarrow>
               (\<forall>r \<in> set (spec_local_records ifs). Interface r \<noteq> ''public'')))"
proof -
  have nolookup: "HttpGet \<notin> set (snd (getIpAddresses cfg w []))"
    using assms
    by (simp add: getIpAddresses_def getIpAddresses_local_def make_ips_def Let_def
        HttpGet_range_interfaces split: sum.split)
  have rest: "getIpAddresses cfg w tr =
              ((Ips (spec_local_records ifs), None),
               tr @ CallInterfaces # map (\<lambda>i. CallAddrs (Name i)) ifs) \<and>
            fst (main cfg w) = 0 \<and>
            data_lines (snd (main cfg w)) =
              (if jsonOutput cfg then [fst (json_Marshal (Ips (spec_local_records ifs)))]
               else map ip_String (spec_local_records ifs)) \<and>
            (\<forall>r \<in> set (spec_local_records ifs). Interface r \<in> Name ` set ifs) \<and>
            (''public'' \<notin> Name ` set ifs \<longrightarrow>
               (\<forall>r \<in> set (spec_local_records ifs). Interface r \<noteq> ''public''))"
    if ifs: "net_Interfaces w = Inr ifs" and ok: "list_all spec_addrs_ok ifs" for ifs
  proof -
    have g: "getIpAddresses cfg w t =
           ((Ips (spec_local_records ifs), None),
            t @ CallInterfaces # map (\<lambda>i. CallAddrs (Name i)) ifs)" for t
      using assms ifs range_interfaces_ok [OF ok, of "[]"]
      by (simp add: getIpAddresses_def getIpAddresses_local_def make_ips_def)
    have f: "fst (getIpAddresses cfg w []) = (Ips (spec_local_records ifs), None)"
      by (simp add: g)
    have names: "\<forall>r \<in> set (spec_local_records ifs). Interface r \<in> Name ` set ifs"
      using spec_local_records_names by blast
    have "fst (main cfg w) = 0"
      using main_with_result(1) [OF f, of json_Marshal] by (simp add: main_def)
    moreover have "data_lines (snd (main cfg w)) =
           (if jsonOutput cfg then [fst (json_Marshal (Ips (spec_local_records ifs)))]
            else map ip_String (spec_local_records ifs))"
      using main_with_result(2) [OF f, of json_Marshal] by (simp add: main_def)
    moreover have "''public'' \<notin> Name ` set ifs \<longrightarrow>
            (\<forall>r \<in> set (spec_local_records ifs). Interface r \<noteq> ''public'')"
      using names by metis
    ultimately show ?thesis
      using g names by blast
  qed
  from nolookup rest show ?thesis
    by blast
qed

text \<open>
  An instance: the two interfaces of the specification's example.
\<close>

theorem no_flags_local_enumeration_witness:
  "\<not> public \<lparr>public = False, all = False, jsonOutput = False, logLevel = 0\<rparr> \<and>
   \<not> all \<lparr>public = False, all = False, jsonOutput = False, logLevel = 0\<rparr> \<and>
   list_all spec_addrs_ok
     [\<lparr>Name = ''eth0'', Addrs = Inr [''192.168.1.5/24'']\<rparr>,
      \<lparr>Name = ''lo'', Addrs = Inr [''127.0.0.1/8'']\<rparr>] \<and>
   getIpAddresses \<lparr>public = False, all = False, jsonOutput = False, logLevel = 0\<rparr>
     \<lparr>http_NewRequest = None, client_Do = Inl (Error ''no route to host''),
      net_Interfaces = Inr
        [\<lparr>Name = ''eth0'', Addrs = Inr [''192.168.1.5/24'']\<rparr>,
         \<lparr>Name = ''lo'', Addrs = Inr [''127.0.0.1/8'']\<rparr>]\<rparr> [] =
     ((Ips [\<lparr>Address = ''192.168.1.5/24'', Interface = ''eth0''\<rparr>,
            \<lparr>Address = ''127.0.0.1/8'', Interface = ''lo''\<rparr>], None),
      [CallInterfaces, CallAddrs ''eth0'', CallAddrs ''lo'']) \<and>
   data_lines (snd (main \<lparr>public = False, all = False, jsonOutput = False, logLevel = 0\<rparr>
     \<lparr>http_NewRequest = None, client_Do = Inl (Error ''no route to host''),
      net_Interfaces = Inr
        [\<lparr>Name = ''eth0'', Addrs = Inr [''192.168.1.5/24'']\<rparr>,
         \<lparr>Name = ''lo'', Addrs = Inr [''127.0.0.1/8'']\<rparr>]\<rparr>)) =
     [''192.168.1.5/24'' @ [CHR 0x09] @ ''eth0'', ''127.0.0.1/8'' @ [CHR 0x09] @ ''lo'']"
proof -
  let ?ifs = "[\<lparr>Name = ''eth0'', Addrs = Inr [''192.168.1.5/24'']\<rparr>,
      \<lparr>Name = ''lo'', Addrs = Inr [''127.0.0.1/8'']\<rparr>]"
  let ?w = "\<lparr>http_NewRequest = None, client_Do = Inl (Error ''no route to host''),
      net_Interfaces = Inr ?ifs\<rparr>"
  let ?cfg = "\<lparr>public = False, all = False, jsonOutput = False, logLevel = 0\<rparr>"
  have ok: "list_all spec_addrs_ok ?ifs"
    by (simp add: spec_addrs_ok_def)
  have recs: "spec_local_records ?ifs =
      [\<lparr>Address = ''192.168.1.5/24'', Interface = ''eth0''\<rparr>,
       \<lparr>Address = ''127.0.0.1/8'', Interface = ''lo''\<rparr>]"
    by (simp add: spec_local_records_def spec_addrs_of_def)
  have "\<not> public ?cfg" and "\<not> all ?cfg"
    by simp_all
  from no_flags_local_enumeration [OF this, of ?w "[]"] ok
  have "getIpAddresses ?cfg ?w [] =
           ((Ips (spec_local_records ?ifs), None),
            [] @ CallInterfaces # map (\<lambda>i. CallAddrs (Name i)) ?ifs)"
    and "data_lines (snd (main ?cfg ?w)) =
           (if jsonOutput ?cfg then [fst (json_Marshal (Ips (spec_local_records ?ifs)))]
            else map ip_String (spec_local_records ?ifs))"
    by simp_all
  then show ?thesis
    using ok by (simp add: recs ip_String_def)
qed

text \<open>
  C3 as written fails: the label is the interface's own name, and the OS may report an
  interface named \<^verbatim>\<open>public\<close>. Its record then carries that label although no lookup was
  made.
\<close>

theorem no_flags_local_enumeration_counterexample:
  "getIpAddresses \<lparr>public = False, all = False, jsonOutput = False, logLevel = 0\<rparr>
     \<lparr>http_NewRequest = None, client_Do = Inl (Error ''no route to host''),
      net_Interfaces = Inr [\<lparr>Name = ''public'', Addrs = Inr [''10.0.0.1/8'']\<rparr>]\<rparr> [] =
     ((Ips [\<lparr>Address = ''10.0.0.1/8'', Interface = ''public''\<rparr>], None),
      [CallInterfaces, CallAddrs ''public'']) \<and>
   main \<lparr>public = False, all = False, jsonOutput = False, logLevel = 0\<rparr>
     \<lparr>http_NewRequest = None, client_Do = Inl (Error ''no route to host''),
      net_Interfaces = Inr [\<lparr>Name = ''public'', Addrs = Inr [''10.0.0.1/8'']\<rparr>]\<rparr> =
     (0, [CallInterfaces, CallAddrs ''public'', Println (''10.0.0.1/8'' @ [CHR 0x09] @ ''public'')])"
  by (simp add: main_def main_with_def run_with_def getIpAddresses_def getIpAddresses_local_def
      make_ips_def slog_log_def handlerOpts_def ip_String_def)

text \<open>
  C4, as amended. When a collection step fails (the lookup when \<open>public\<close> or \<open>all\<close> is
  set, the enumeration of the interfaces, or reading one interface's addresses), the
  collector stops at that step and returns its error, together with the records it had
  collected before the step; \<^verbatim>\<open>run\<close> ignores them: the process prints no data line,
  logs the error as its last line and exits with code 1.
\<close>

theorem collection_failure_is_fatal:
  assumes "spec_collection_error cfg w = Some e"
  shows "fst (getIpAddresses cfg w tr) = (Ips (spec_collected cfg w), Some e) \<and>
         fst (main cfg w) = 1 \<and>
         data_lines (snd (main cfg w)) = [] \<and>
         last (snd (main cfg w)) =
           LogLine LevelError ''could not get ip addresses''
             [StringAttr ''project'' ''ips'', ErrAttr ''err'' e]"
proof -
  have err: "snd (fst (getIpAddresses cfg w t)) = Some e" for t
    using assms by (simp add: getIpAddresses_error)
  obtain ips where f: "fst (getIpAddresses cfg w []) = (ips, Some e)"
    using err [of "[]"] by (metis prod.collapse)
  have "fst (main cfg w) = 1"
    using main_with_result(1) [OF f, of json_Marshal] by (simp add: main_def)
  moreover have "data_lines (snd (main cfg w)) = []"
    using main_with_result(2) [OF f, of json_Marshal] by (simp add: main_def)
  moreover have "last (snd (main cfg w)) =
           LogLine LevelError ''could not get ip addresses''
             [StringAttr ''project'' ''ips'', ErrAttr ''err'' e]"
    using main_with_error_log [OF err [of "[]"], of json_Marshal] by (auto simp: main_def)
  moreover have "fst (getIpAddresses cfg w tr) = (Ips (spec_collected cfg w), Some e)"
    using err [of tr] getIpAddresses_records [of cfg w tr]
    by (metis prod.collapse)
  ultimately show ?thesis
    by blast
qed

text \<open>
  An instance: the lookup succeeds, the first interface is read, the second cannot be; the
  public record and the first interface's record come back with the error, and nothing is
  printed.
\<close>

theorem collection_failure_is_fatal_witness:
  "spec_collection_error \<lparr>public = False, all = True, jsonOutput = False, logLevel = 0\<rparr>
     \<lparr>http_NewRequest = None, client_Do = Inr (Inr ''203.0.113.7''),
      net_Interfaces = Inr
        [\<lparr>Name = ''lo'', Addrs = Inr [''127.0.0.1/8'']\<rparr>,
         \<lparr>Name = ''eth0'', Addrs = Inl (Error ''route ip+net: no such network interface'')\<rparr>]\<rparr> =
     Some (Error ''route ip+net: no such network interface'') \<and>
   fst (getIpAddresses \<lparr>public = False, all = True, jsonOutput = False, logLevel = 0\<rparr>
     \<lparr>http_NewRequest = None, client_Do = Inr (Inr ''203.0.113.7''),
      net_Interfaces = Inr
        [\<lparr>Name = ''lo'', Addrs = Inr [''127.0.0.1/8'']\<rparr>,
         \<lparr>Name = ''eth0'', Addrs = Inl (Error ''route ip+net: no such network interface'')\<rparr>]\<rparr> []) =
     (Ips [\<lparr>Address = ''203.0.113.7'', Interface = ''public''\<rparr>,
           \<lparr>Address = ''127.0.0.1/8'', Interface = ''lo''\<rparr>],
      Some (Error ''route ip+net: no such network interface'')) \<and>
   fst (main \<lparr>public = False, all = True, jsonOutput = False, logLevel = 0\<rparr>
     \<lparr>http_NewRequest = None, client_Do = Inr (Inr ''203.0.113.7''),
      net_Interfaces = Inr
        [\<lparr>Name = ''lo'', Addrs = Inr [''127.0.0.1/8'']\<rparr>,
         \<lparr>Name = ''eth0'', Addrs = Inl (Error ''route ip+net: no such network interface'')\<rparr>]\<rparr>) = 1 \<and>
   data_lines (snd (main \<lparr>public = False, all = True, jsonOutput = False, logLevel = 0\<rparr>
     \<lparr>http_NewRequest = None, client_Do = Inr (Inr ''203.0.113.7''),
      net_Interfaces = Inr
        [\<lparr>Name = ''lo'', Addrs = Inr [''127.0.0.1/8'']\<rparr>,
         \<lparr>Name = ''eth0'', Addrs = Inl (Error ''route ip+net: no such network interface'')\<rparr>]\<rparr>)) = []"
proof -
  let ?cfg = "\<lparr>public = False, all = True, jsonOutput = False, logLevel = 0\<rparr>"
  let ?w = "\<lparr>http_NewRequest = None, client_Do = Inr (Inr ''203.0.113.7''),
      net_Interfaces = Inr
        [\<lparr>Name = ''lo'', Addrs = Inr [''127.0.0.1/8'']\<rparr>,
         \<lparr>Name = ''eth0'', Addrs = Inl (Error ''route ip+net: no such network interface'')\<rparr>]\<rparr>"
  have h: "spec_collection_error ?cfg ?w = Some (Error ''route ip+net: no such network interface'')"
    by (simp add: spec_collection_error_def spec_lookup_error_def spec_enumeration_error_def)
  have trim: "strings_TrimSpace ''203.0.113.7'' = ''203.0.113.7''"
    by code_simp
  have c: "spec_collected ?cfg ?w =
      [\<lparr>Address = ''203.0.113.7'', Interface = ''public''\<rparr>,
       \<lparr>Address = ''127.0.0.1/8'', Interface = ''lo''\<rparr>]"
    by (simp add: spec_collected_def spec_lookup_error_def trim)
  from collection_failure_is_fatal [OF h, of "[]"] h c show ?thesis
    by simp
qed

text \<open>
  C4 as written fails where it says that no partial results are returned: every
  \<^verbatim>\<open>return ips, err\<close> hands back the slice built so far. Here the enumeration of the
  interfaces fails after the lookup succeeded.
\<close>

theorem collection_failure_is_fatal_counterexample:
  "getIpAddresses \<lparr>public = False, all = True, jsonOutput = False, logLevel = 0\<rparr>
     \<lparr>http_NewRequest = None, client_Do = Inr (Inr ''203.0.113.7''),
      net_Interfaces = Inl (Error ''route ip+net: netlinkrib: too many open files'')\<rparr> [] =
     ((Ips [\<lparr>Address = ''203.0.113.7'', Interface = ''public''\<rparr>],
       Some (Error ''route ip+net: netlinkrib: too many open files'')),
      [HttpGet, CallInterfaces])"
proof -
  have trim: "strings_TrimSpace ''203.0.113.7'' = ''203.0.113.7''"
    by code_simp
  show ?thesis
    by (simp add: getIpAddresses_def getPublicIp_def getIpAddresses_local_def make_ips_def trim)
qed

text \<open>
  C5, as amended. The flag value 0 selects the level warn, 1 info, 2 debug, and every
  value from 3 on selects info: the \<^verbatim>\<open>default\<close> branch of the switch. So debug records
  are written at the value 2 only, and info records at every value but 0.
\<close>

theorem handlerOpts_mapping:
  "handlerOpts 0 = LevelWarn \<and> handlerOpts 1 = LevelInfo \<and> handlerOpts 2 = LevelDebug \<and>
   (\<forall>l. 3 \<le> l \<longrightarrow> handlerOpts l = LevelInfo) \<and>
   (\<forall>l. level_value (handlerOpts l) \<le> level_value LevelDebug \<longleftrightarrow> l = 2) \<and>
   (\<forall>l. level_value (handlerOpts l) \<le> level_value LevelInfo \<longleftrightarrow> l \<noteq> 0)"
  by (simp add: handlerOpts_def)

text \<open>
  Instances of the \<^verbatim>\<open>default\<close> branch: 3, and the largest 32-bit value.
\<close>

theorem handlerOpts_mapping_witness:
  "handlerOpts 0 = LevelWarn \<and> handlerOpts 1 = LevelInfo \<and> handlerOpts 2 = LevelDebug \<and>
   handlerOpts 3 = LevelInfo \<and> handlerOpts 4294967295 = LevelInfo"
proof -
  from handlerOpts_mapping have "(3::nat) \<le> 3 \<longrightarrow> handlerOpts 3 = LevelInfo"
    and "(3::nat) \<le> 4294967295 \<longrightarrow> handlerOpts 4294967295 = LevelInfo"
    by blast+
  with handlerOpts_mapping show ?thesis
    by simp
qed

text \<open>
  C5 as written fails at 3: the level is info, not debug, and the debug record that
  \<^verbatim>\<open>main\<close> logs at its start, written at flag value 2, is not written at 3.
\<close>

theorem handlerOpts_mapping_counterexample:
  "handlerOpts 3 \<noteq> LevelDebug \<and>
   snd (main \<lparr>public = False, all = False, jsonOutput = False, logLevel = 3\<rparr>
     \<lparr>http_NewRequest = None, client_Do = Inl (Error ''no route to host''),
      net_Interfaces = Inr []\<rparr>) = [CallInterfaces] \<and>
   snd (main \<lparr>public = False, all = False, jsonOutput = False, logLevel = 2\<rparr>
     \<lparr>http_NewRequest = None, client_Do = Inl (Error ''no route to host''),
      net_Interfaces = Inr []\<rparr>) =
     [LogLine LevelDebug ''starting''
        [StringAttr ''project'' ''ips'', BoolAttr ''public'' False, BoolAttr ''all'' False,
         BoolAttr ''json'' False, UintAttr ''logLevel'' 2],
      CallInterfaces]"
  by (simp add: handlerOpts_def main_def main_with_def run_with_def getIpAddresses_def
      getIpAddresses_local_def make_ips_def slog_log_def)





text \<open>
  C8. In the loop over the interfaces, when every address list can be read, each
  interface adds one record per address of its list, in order, labelled with its name; so
  the number of records added is the number of addresses, and an interface with an empty
  list adds nothing.
\<close>

theorem range_interfaces_records:
  assumes "list_all spec_addrs_ok ifs"
  shows "fst (range_interfaces ifs (Ips xs) tr) =
           (Ips (xs @ concat (map (\<lambda>i. map (\<lambda>a. \<lparr>Address = a, Interface = Name i\<rparr>)
                                          (spec_addrs_of i)) ifs)), None) \<and>
         length (range_ips (fst (fst (range_interfaces ifs (Ips xs) tr)))) =
           length xs + sum_list (map (\<lambda>i. length (spec_addrs_of i)) ifs) \<and>
         (\<forall>i rest. Addrs i = Inr [] \<longrightarrow>
            fst (range_interfaces (i # rest) (Ips xs) tr) = fst (range_interfaces rest (Ips xs) tr))"
proof -
  have eq: "fst (range_interfaces ifs (Ips xs) tr) =
           (Ips (xs @ concat (map (\<lambda>i. map (\<lambda>a. \<lparr>Address = a, Interface = Name i\<rparr>)
                                          (spec_addrs_of i)) ifs)), None)"
    using range_interfaces_ok [OF assms, of xs tr] by (simp add: spec_local_records_def)
  have len: "length (concat (map (\<lambda>i. map (\<lambda>a. \<lparr>Address = a, Interface = Name i\<rparr>)
                                          (spec_addrs_of i)) js)) =
      sum_list (map (\<lambda>i. length (spec_addrs_of i)) js)" for js
    by (induction js) simp_all
  have skip: "fst (range_interfaces (i # rest) (Ips xs) tr) = fst (range_interfaces rest (Ips xs) tr)"
    if "Addrs i = Inr []" for i rest
    using that range_interfaces_fst_trace [of rest "Ips xs" "tr @ [CallAddrs (Name i)]" tr]
    by (simp add: Let_def)
  from eq len skip show ?thesis
    by simp
qed

text \<open>
  An instance: three interfaces with two, no and one address.
\<close>

theorem range_interfaces_records_witness:
  "list_all spec_addrs_ok
     [\<lparr>Name = ''lo'', Addrs = Inr [''127.0.0.1/8'', ''::1/128'']\<rparr>,
      \<lparr>Name = ''tun0'', Addrs = Inr []\<rparr>,
      \<lparr>Name = ''eth0'', Addrs = Inr [''192.168.1.5/24'']\<rparr>] \<and>
   fst (range_interfaces
     [\<lparr>Name = ''lo'', Addrs = Inr [''127.0.0.1/8'', ''::1/128'']\<rparr>,
      \<lparr>Name = ''tun0'', Addrs = Inr []\<rparr>,
      \<lparr>Name = ''eth0'', Addrs = Inr [''192.168.1.5/24'']\<rparr>] (Ips []) []) =
     (Ips [\<lparr>Address = ''127.0.0.1/8'', Interface = ''lo''\<rparr>,
           \<lparr>Address = ''::1/128'', Interface = ''lo''\<rparr>,
           \<lparr>Address = ''192.168.1.5/24'', Interface = ''eth0''\<rparr>], None) \<and>
   length (range_ips (fst (fst (range_interfaces
     [\<lparr>Name = ''lo'', Addrs = Inr [''127.0.0.1/8'', ''::1/128'']\<rparr>,
      \<lparr>Name = ''tun0'', Addrs = Inr []\<rparr>,
      \<lparr>Name = ''eth0'', Addrs = Inr [''192.168.1.5/24'']\<rparr>] (Ips []) [])))) = 3"
proof -
  let ?ifs = "[\<lparr>Name = ''lo'', Addrs = Inr [''127.0.0.1/8'', ''::1/128'']\<rparr>,
      \<lparr>Name = ''tun0'', Addrs = Inr []\<rparr>,
      \<lparr>Name = ''eth0'', Addrs = Inr [''192.168.1.5/24'']\<rparr>]"
  have ok: "list_all spec_addrs_ok ?ifs"
    by (simp add: spec_addrs_ok_def)
  from range_interfaces_records [OF ok, of "[]" "[]"]
  have "fst (range_interfaces ?ifs (Ips []) []) =
           (Ips ([] @ concat (map (\<lambda>i. map (\<lambda>a. \<lparr>Address = a, Interface = Name i\<rparr>)
                                          (spec_addrs_of i)) ?ifs)), None)"
    and "length (range_ips (fst (fst (range_interfaces ?ifs (Ips []) [])))) =
           length ([] :: ip list) + sum_list (map (\<lambda>i. length (spec_addrs_of i)) ?ifs)"
    by blast+
  then show ?thesis
    using ok by (simp add: spec_addrs_of_def)
qed

text \<open>
  C9. When the collection succeeds with no record, the slice is the empty slice that is
  not nil, the process exits with code 0, and its data output is the one line \<^verbatim>\<open>[]\<close> in
  JSON mode (not \<^verbatim>\<open>null\<close>) and nothing in text mode.
\<close>

theorem empty_collection:
  assumes "fst (getIpAddresses cfg w []) = (ips, None)"
    and "range_ips ips = []"
  shows "ips = Ips [] \<and>
         fst (main cfg w) = 0 \<and>
         data_lines (snd (main cfg w)) = (if jsonOutput cfg then [''[]''] else []) \<and>
         fst (json_Marshal ips) \<noteq> ''null''"
proof -
  from getIpAddresses_nonnil [of cfg w "[]"] assms obtain xs where "ips = Ips xs"
    by auto
  with assms(2) have ips: "ips = Ips []"
    by simp
  from main_with_result [OF assms(1), of json_Marshal] ips show ?thesis
    by (simp add: main_def)
qed

text \<open>
  Instances: an interface without addresses in JSON mode, no interface in text mode.
\<close>

theorem empty_collection_witness:
  "fst (getIpAddresses \<lparr>public = False, all = False, jsonOutput = True, logLevel = 0\<rparr>
     \<lparr>http_NewRequest = None, client_Do = Inl (Error ''no route to host''),
      net_Interfaces = Inr [\<lparr>Name = ''tun0'', Addrs = Inr []\<rparr>]\<rparr> []) = (Ips [], None) \<and>
   range_ips (Ips []) = [] \<and>
   fst (main \<lparr>public = False, all = False, jsonOutput = True, logLevel = 0\<rparr>
     \<lparr>http_NewRequest = None, client_Do = Inl (Error ''no route to host''),
      net_Interfaces = Inr [\<lparr>Name = ''tun0'', Addrs = Inr []\<rparr>]\<rparr>) = 0 \<and>
   data_lines (snd (main \<lparr>public = False, all = False, jsonOutput = True, logLevel = 0\<rparr>
     \<lparr>http_NewRequest = None, client_Do = Inl (Error ''no route to host''),
      net_Interfaces = Inr [\<lparr>Name = ''tun0'', Addrs = Inr []\<rparr>]\<rparr>)) = [''[]''] \<and>
   data_lines (snd (main \<lparr>public = False, all = False, jsonOutput = False, logLevel = 0\<rparr>
     \<lparr>http_NewRequest = None, client_Do = Inl (Error ''no route to host''),
      net_Interfaces = Inr []\<rparr>)) = []"
proof -
  let ?w = "\<lparr>http_NewRequest = None, client_Do = Inl (Error ''no route to host''),
      net_Interfaces = Inr [\<lparr>Name = ''tun0'', Addrs = Inr []\<rparr>]\<rparr>"
  let ?w' = "\<lparr>http_NewRequest = None, client_Do = Inl (Error ''no route to host''),
      net_Interfaces = Inr []\<rparr>"
  have g: "fst (getIpAddresses \<lparr>public = False, all = False, jsonOutput = True, logLevel = 0\<rparr> ?w []) =
      (Ips [], None)"
    by (simp add: getIpAddresses_def getIpAddresses_local_def make_ips_def)
  have g': "fst (getIpAddresses \<lparr>public = False, all = False, jsonOutput = False, logLevel = 0\<rparr> ?w' []) =
      (Ips [], None)"
    by (simp add: getIpAddresses_def getIpAddresses_local_def make_ips_def)
  have e: "range_ips (Ips []) = []"
    by simp
  from empty_collection [OF g e] empty_collection [OF g' e] g show ?thesis
    by simp
qed

text \<open>
  C10. When \<^verbatim>\<open>getPublicIp\<close> returns no error, its record is not nil; and in a run with
  \<open>public\<close> or \<open>all\<close> set, the collected sequence is that one record followed by what
  the collector yields without the lookup (when \<open>all\<close> is set) or by nothing.
\<close>

theorem public_record_appended_once:
  assumes "snd (fst (getPublicIp w tr)) = None"
  shows "\<exists>p. fst (fst (getPublicIp w tr)) = Some p \<and>
           (public cfg \<or> all cfg \<longrightarrow>
              range_ips (fst (fst (getIpAddresses cfg w tr))) =
                p # (if all cfg
                     then range_ips (fst (fst (getIpAddresses (cfg\<lparr>public := False, all := False\<rparr>) w tr)))
                     else []))"
proof -
  from getPublicIp_success [OF assms] obtain body where
    g: "getPublicIp w tr =
       ((Some \<lparr>Address = strings_TrimSpace body, Interface = ''public''\<rparr>, None), tr @ [HttpGet])"
    by blast
  let ?p = "\<lparr>Address = strings_TrimSpace body, Interface = ''public''\<rparr>"
  have "range_ips (fst (fst (getIpAddresses cfg w tr))) =
                ?p # (if all cfg
                     then range_ips (fst (fst (getIpAddresses (cfg\<lparr>public := False, all := False\<rparr>) w tr)))
                     else [])"
    if pa: "public cfg \<or> all cfg"
  proof (cases "all cfg")
    case False
    with pa show ?thesis
      by (simp add: getIpAddresses_def g make_ips_def getIpAddresses_local_def)
  next
    case True
    show ?thesis
    proof (cases "net_Interfaces w")
      case (Inl e)
      with True show ?thesis
        by (simp add: getIpAddresses_def g make_ips_def getIpAddresses_local_def)
    next
      case (Inr ifs)
      have "range_ips (fst (fst (range_interfaces ifs (Ips [?p]) (tr @ [HttpGet, CallInterfaces])))) =
          [?p] @ range_ips (fst (fst (range_interfaces ifs (Ips []) (tr @ [HttpGet, CallInterfaces]))))"
        by (rule range_interfaces_acc)
      moreover have "fst (range_interfaces ifs (Ips []) (tr @ [HttpGet, CallInterfaces])) =
          fst (range_interfaces ifs (Ips []) (tr @ [CallInterfaces]))"
        by (rule range_interfaces_fst_trace)
      ultimately show ?thesis
        using True Inr
        by (simp add: getIpAddresses_def g make_ips_def getIpAddresses_local_def)
    qed
  qed
  with g show ?thesis
    by simp
qed

text \<open>
  An instance with both flags set.
\<close>

theorem public_record_appended_once_witness:
  "snd (fst (getPublicIp
     \<lparr>http_NewRequest = None, client_Do = Inr (Inr ''203.0.113.7''),
      net_Interfaces = Inr [\<lparr>Name = ''lo'', Addrs = Inr [''127.0.0.1/8'']\<rparr>]\<rparr> [])) = None \<and>
   fst (fst (getPublicIp
     \<lparr>http_NewRequest = None, client_Do = Inr (Inr ''203.0.113.7''),
      net_Interfaces = Inr [\<lparr>Name = ''lo'', Addrs = Inr [''127.0.0.1/8'']\<rparr>]\<rparr> [])) =
     Some \<lparr>Address = ''203.0.113.7'', Interface = ''public''\<rparr> \<and>
   range_ips (fst (fst (getIpAddresses \<lparr>public = True, all = True, jsonOutput = False, logLevel = 0\<rparr>
     \<lparr>http_NewRequest = None, client_Do = Inr (Inr ''203.0.113.7''),
      net_Interfaces = Inr [\<lparr>Name = ''lo'', Addrs = Inr [''127.0.0.1/8'']\<rparr>]\<rparr> []))) =
     [\<lparr>Address = ''203.0.113.7'', Interface = ''public''\<rparr>,
      \<lparr>Address = ''127.0.0.1/8'', Interface = ''lo''\<rparr>]"
proof -
  let ?w = "\<lparr>http_NewRequest = None, client_Do = Inr (Inr ''203.0.113.7''),
      net_Interfaces = Inr [\<lparr>Name = ''lo'', Addrs = Inr [''127.0.0.1/8'']\<rparr>]\<rparr>"
  let ?cfg = "\<lparr>public = True, all = True, jsonOutput = False, logLevel = 0\<rparr>"
  have trim: "strings_TrimSpace ''203.0.113.7'' = ''203.0.113.7''"
    by code_simp
  have p: "getPublicIp ?w [] =
      ((Some \<lparr>Address = ''203.0.113.7'', Interface = ''public''\<rparr>, None), [HttpGet])"
    by (simp add: getPublicIp_def trim)
  then have h: "snd (fst (getPublicIp ?w [])) = None"
    by simp
  have loc: "range_ips (fst (fst (getIpAddresses (?cfg\<lparr>public := False, all := False\<rparr>) ?w []))) =
      [\<lparr>Address = ''127.0.0.1/8'', Interface = ''lo''\<rparr>]"
    by (simp add: getIpAddresses_def getIpAddresses_local_def make_ips_def)
  from public_record_appended_once [OF h, of ?cfg] p loc show ?thesis
    by simp
qed

end
